theory Spec2Isabelle
  imports Main
begin

section \<open>The MSSQL container monitor (\<^verbatim>\<open>mssql_tray.py\<close>)\<close>

text \<open>
  The development embeds the class \<^verbatim>\<open>ContainerMonitor\<close> of \<^verbatim>\<open>mssql_tray.py\<close>: the
  status probe \<^verbatim>\<open>check_status\<close>, the edge detector \<^verbatim>\<open>poll\<close> and the three actions
  \<^verbatim>\<open>start\<close>, \<^verbatim>\<open>stop\<close>, \<^verbatim>\<open>restart\<close>.  The outside is a parameter of every
  method: what \<^verbatim>\<open>subprocess.run\<close> or \<^verbatim>\<open>subprocess.Popen\<close> answers and what the
  callback answers are arguments, and what the method does to the outside (processes
  launched, callback invoked) is returned as a list of events in program order.
  Exceptions are values of a sum type.
\<close>

subsection \<open>Python strings\<close>

text \<open>
  A Python \<^verbatim>\<open>str\<close> is a sequence of Unicode code points; a code point is a natural
  number.  \<open>str_of\<close> reads an ASCII literal.
\<close>

type_synonym pystr = "nat list"

definition str_of :: "string \<Rightarrow> pystr" where
  "str_of s = map of_char s"

text \<open>
  \<^verbatim>\<open>str.isspace\<close> for one code point: the characters \<^verbatim>\<open>str.strip()\<close> removes when it is
  called without an argument (tab, line feed, vertical tab, form feed, carriage return,
  the four separators U+001C..U+001F, space, U+0085, U+00A0, U+1680, U+2000..U+200A,
  U+2028, U+2029, U+202F, U+205F, U+3000).
\<close>

definition isspace :: "nat \<Rightarrow> bool" where
  "isspace c \<longleftrightarrow>
     (9 \<le> c \<and> c \<le> 13) \<or> (28 \<le> c \<and> c \<le> 31) \<or> c = 32 \<or> c = 133 \<or> c = 160 \<or>
     c = 5760 \<or> (8192 \<le> c \<and> c \<le> 8202) \<or> c = 8232 \<or> c = 8233 \<or> c = 8239 \<or>
     c = 8287 \<or> c = 12288"

text \<open>
  The line boundaries of \<^verbatim>\<open>str.splitlines\<close>: line feed, vertical tab, form feed,
  carriage return, U+001C, U+001D, U+001E, U+0085, U+2028, U+2029.
\<close>

definition is_linebreak :: "nat \<Rightarrow> bool" where
  "is_linebreak c \<longleftrightarrow>
     (10 \<le> c \<and> c \<le> 13) \<or> (28 \<le> c \<and> c \<le> 30) \<or> c = 133 \<or> c = 8232 \<or> c = 8233"

text \<open>\<^verbatim>\<open>s.strip()\<close>: leading and trailing whitespace of the whole string is removed.\<close>

definition strip :: "pystr \<Rightarrow> pystr" where
  "strip s = rev (dropWhile isspace (rev (dropWhile isspace s)))"

text \<open>
  \<^verbatim>\<open>s.splitlines()\<close>: the string is cut at every line boundary, the boundary itself is
  dropped, carriage return followed by line feed is one boundary, and a boundary at the
  very end opens no further line.  The first argument is the line read so far.
\<close>

fun splitlines_from :: "pystr \<Rightarrow> pystr \<Rightarrow> pystr list" where
  "splitlines_from line [] = (if line = [] then [] else [line])"
| "splitlines_from line [c] = (if is_linebreak c then [line] else [line @ [c]])"
| "splitlines_from line (c # d # cs) =
     (if c = 13 \<and> d = 10 then line # splitlines_from [] cs
      else if is_linebreak c then line # splitlines_from [] (d # cs)
      else splitlines_from (line @ [c]) (d # cs))"

definition splitlines :: "pystr \<Rightarrow> pystr list" where
  "splitlines s = splitlines_from [] s"

text \<open>
  Where a line can end and where it can start: at an end of the string or at a line
  boundary.
\<close>

definition line_end :: "pystr \<Rightarrow> bool" where
  "line_end post \<longleftrightarrow> post = [] \<or> is_linebreak (hd post)"

definition line_start :: "pystr \<Rightarrow> bool" where
  "line_start pre \<longleftrightarrow> pre = [] \<or> is_linebreak (last pre)"

subsection \<open>The domain: statuses, exceptions, processes\<close>

datatype ContainerStatus = RUNNING | STOPPED | UNKNOWN

text \<open>
  The exceptions a subprocess call can raise, by class.  \<open>FileNotFoundError\<close> and
  \<open>PermissionError\<close> are subclasses of \<open>OSError\<close>; \<open>OSError\<close> stands for every other
  member of that family; \<open>TimeoutExpired\<close> is \<^verbatim>\<open>subprocess.TimeoutExpired\<close>;
  \<open>OtherException\<close> is any exception outside these classes (a \<^verbatim>\<open>UnicodeDecodeError\<close>
  while the captured text is decoded, for instance).
\<close>

datatype exn = TimeoutExpired | FileNotFoundError | PermissionError | OSError | OtherException

fun is_OSError :: "exn \<Rightarrow> bool" where
  "is_OSError FileNotFoundError = True"
| "is_OSError PermissionError = True"
| "is_OSError OSError = True"
| "is_OSError _ = False"

text \<open>
  The clause \<^verbatim>\<open>except (subprocess.TimeoutExpired, FileNotFoundError, OSError)\<close> of
  \<^verbatim>\<open>check_status\<close>: an exception is handled when it is an instance of one of the three.
\<close>

definition probe_handled :: "exn \<Rightarrow> bool" where
  "probe_handled e \<longleftrightarrow> e = TimeoutExpired \<or> e = FileNotFoundError \<or> is_OSError e"

text \<open>\<^verbatim>\<open>subprocess.CompletedProcess\<close>, what \<^verbatim>\<open>subprocess.run\<close> returns.\<close>

record CompletedProcess =
  args :: "pystr list"
  returncode :: int
  stdout :: pystr
  stderr :: pystr

text \<open>
  The child a successful \<^verbatim>\<open>subprocess.Popen\<close> creates: its process id and the exit code
  it will end with (\<open>None\<close> when it never ends).
\<close>

record child =
  pid :: nat
  exit_code :: "int option"

type_synonym run_result = "exn + CompletedProcess"
type_synonym popen_result = "exn + child"

text \<open>What a call of the callback answers: it returns, or it raises.\<close>

type_synonym callback_result = "exn + unit"

datatype stream = INHERIT | PIPE | DEVNULL

text \<open>
  What a method does to the outside, in program order:
  \<^item> \<open>Run argv timeout\<close>: \<^verbatim>\<open>subprocess.run(argv, capture_output=True, text=True,
    timeout=timeout)\<close>, which launches the command and waits for it;
  \<^item> \<open>Popen argv out err\<close>: \<^verbatim>\<open>subprocess.Popen(argv, stdout=out, stderr=err)\<close>, which
    launches the command and does not wait;
  \<^item> \<open>Callback cb status seen\<close>: the callback \<open>cb\<close> is called with \<open>status\<close>, at a
    moment where the field \<^verbatim>\<open>_last_status\<close> of the monitor holds \<open>seen\<close>; the event is
    the call, whether the callback then returns or raises.
\<close>

datatype 'cb event =
    Run "pystr list" nat
  | Popen "pystr list" stream stream
  | Callback 'cb ContainerStatus "ContainerStatus option"

subsection \<open>The monitor\<close>

text \<open>
  The fields of \<^verbatim>\<open>ContainerMonitor\<close>.  \<open>'cb\<close> is the type of callbacks; \<open>None\<close> is
  Python's \<^verbatim>\<open>None\<close> in both optional fields.
\<close>

record 'cb monitor =
  container_name :: pystr
  mssql_sh_path :: pystr
  last_status :: "ContainerStatus option"
  on_status_change :: "'cb option"

text \<open>
  A method returns what it returns or raises, the monitor as it leaves it, and the
  events it caused.
\<close>

type_synonym ('cb, 'a) outcome = "(exn + 'a) \<times> 'cb monitor \<times> 'cb event list"

definition returned :: "('cb, 'a) outcome \<Rightarrow> exn + 'a" where
  "returned out = fst out"

definition monitor_after :: "('cb, 'a) outcome \<Rightarrow> 'cb monitor" where
  "monitor_after out = fst (snd out)"

definition events :: "('cb, 'a) outcome \<Rightarrow> 'cb event list" where
  "events out = snd (snd out)"

text \<open>\<^verbatim>\<open>ContainerMonitor.__init__\<close>\<close>

definition init :: "pystr \<Rightarrow> pystr \<Rightarrow> 'cb monitor" where
  "init name path =
     \<lparr>container_name = name, mssql_sh_path = path, last_status = None, on_status_change = None\<rparr>"

definition podman_ps :: "pystr list" where
  "podman_ps = [str_of ''podman'', str_of ''ps'', str_of ''--format'', str_of ''{{.Names}}'']"

text \<open>
  \<^verbatim>\<open>ContainerMonitor.check_status\<close>.  The second argument is the answer of
  \<^verbatim>\<open>subprocess.run\<close>: the completed process, or the exception it raises.
\<close>

definition check_status :: "'cb monitor \<Rightarrow> run_result \<Rightarrow> ('cb, ContainerStatus) outcome" where
  "check_status self r =
     (case r of
        Inr result \<Rightarrow>
          (let names = splitlines (strip (stdout result))
           in if container_name self \<in> set names then Inr RUNNING else Inr STOPPED)
      | Inl e \<Rightarrow> if probe_handled e then Inr UNKNOWN else Inl e,
      self, [Run podman_ps 10])"

text \<open>
  \<^verbatim>\<open>ContainerMonitor.poll\<close>.  The second argument is the answer of \<^verbatim>\<open>subprocess.run\<close>,
  the third is the answer of the callback, should \<^verbatim>\<open>poll\<close> call it.  The comparison
  \<^verbatim>\<open>current != self._last_status\<close> is between a status and a status or \<^verbatim>\<open>None\<close>; a
  registered callback is a function or bound method, which Python takes as true in
  \<^verbatim>\<open>if self.on_status_change\<close>.  The call of the callback is the last statement and has
  no handler around it: what the callback raises, \<^verbatim>\<open>poll\<close> raises, with \<^verbatim>\<open>_last_status\<close>
  assigned before.
\<close>

definition poll :: "'cb monitor \<Rightarrow> run_result \<Rightarrow> callback_result \<Rightarrow> ('cb, unit) outcome" where
  "poll self r k =
     (case check_status self r of
        (Inl e, self1, evs) \<Rightarrow> (Inl e, self1, evs)
      | (Inr current, self1, evs) \<Rightarrow>
          if Some current \<noteq> last_status self1 then
            (let self2 = self1\<lparr>last_status := Some current\<rparr>
             in case on_status_change self2 of
                  Some cb \<Rightarrow>
                    (case k of Inl e \<Rightarrow> Inl e | Inr u \<Rightarrow> Inr (),
                     self2, evs @ [Callback cb current (last_status self2)])
                | None \<Rightarrow> (Inr (), self2, evs))
          else (Inr (), self1, evs))"

text \<open>
  \<^verbatim>\<open>ContainerMonitor.start\<close>, \<^verbatim>\<open>stop\<close>, \<^verbatim>\<open>restart\<close>.  The second argument is the answer of
  \<^verbatim>\<open>subprocess.Popen\<close>: the child it created, or the exception it raises.  The
  \<^verbatim>\<open>Popen\<close> object is dropped, and no exception is handled.
\<close>

definition start :: "'cb monitor \<Rightarrow> popen_result \<Rightarrow> ('cb, unit) outcome" where
  "start self p =
     (case p of Inl e \<Rightarrow> Inl e | Inr proc \<Rightarrow> Inr (),
      self, [Popen [mssql_sh_path self, str_of ''start''] DEVNULL DEVNULL])"

definition stop :: "'cb monitor \<Rightarrow> popen_result \<Rightarrow> ('cb, unit) outcome" where
  "stop self p =
     (case p of Inl e \<Rightarrow> Inl e | Inr proc \<Rightarrow> Inr (),
      self, [Popen [mssql_sh_path self, str_of ''stop''] DEVNULL DEVNULL])"

definition restart :: "'cb monitor \<Rightarrow> popen_result \<Rightarrow> ('cb, unit) outcome" where
  "restart self p =
     (case p of Inl e \<Rightarrow> Inl e | Inr proc \<Rightarrow> Inr (),
      self, [Popen [mssql_sh_path self, str_of ''restart''] DEVNULL DEVNULL])"

subsection \<open>Sequences of calls\<close>

text \<open>
  The tray application calls \<^verbatim>\<open>poll\<close> from its timer and the actions from its menu, one
  call after the other on one thread.  A sequence of such calls runs on the monitor the
  previous call left; it ends at the first call that raises.  A poll comes with the
  answer of its probe and the answer of the callback.
\<close>

datatype call =
    Poll run_result callback_result
  | Start popen_result
  | Stop popen_result
  | Restart popen_result

fun perform :: "'cb monitor \<Rightarrow> call \<Rightarrow> ('cb, unit) outcome" where
  "perform self (Poll r k) = poll self r k"
| "perform self (Start p) = start self p"
| "perform self (Stop p) = stop self p"
| "perform self (Restart p) = restart self p"

fun perform_all :: "'cb monitor \<Rightarrow> call list \<Rightarrow> ('cb, unit) outcome" where
  "perform_all self [] = (Inr (), self, [])"
| "perform_all self (c # cs) =
     (case perform self c of
        (Inl e, self1, evs) \<Rightarrow> (Inl e, self1, evs)
      | (Inr u, self1, evs) \<Rightarrow>
          (case perform_all self1 cs of (res, self2, evs2) \<Rightarrow> (res, self2, evs @ evs2)))"

text \<open>The callback invocations among some events: callback, argument, status seen.\<close>

fun callbacks :: "'cb event list \<Rightarrow> ('cb \<times> ContainerStatus \<times> ContainerStatus option) list" where
  "callbacks [] = []"
| "callbacks (Callback cb s seen # evs) = (cb, s, seen) # callbacks evs"
| "callbacks (_ # evs) = callbacks evs"

fun is_action :: "call \<Rightarrow> bool" where
  "is_action (Poll r k) = False"
| "is_action (Start p) = True"
| "is_action (Stop p) = True"
| "is_action (Restart p) = True"

text \<open>A poll whose callback, if it is called, returns.\<close>

definition poll_ok :: "run_result \<Rightarrow> call" where
  "poll_ok r = Poll r (Inr ())"

subsection \<open>The monitor of the test suite\<close>

text \<open>
  \<^verbatim>\<open>test_mssql_tray.py\<close> builds its monitor for the container \<^verbatim>\<open>mssql-server-test\<close> and
  the script \<^verbatim>\<open>/fake/mssql.sh\<close>, and registers a callback; its probe answers are completed
  processes with a given exit code and standard output.
\<close>

definition test_monitor :: "unit monitor" where
  "test_monitor =
     (init (str_of ''mssql-server-test'') (str_of ''/fake/mssql.sh''))\<lparr>on_status_change := Some ()\<rparr>"

definition completed :: "int \<Rightarrow> pystr \<Rightarrow> CompletedProcess" where
  "completed rc out = \<lparr>args = podman_ps, returncode = rc, stdout = out, stderr = []\<rparr>"

definition three_names :: pystr where
  "three_names =
     str_of ''postgres-dev'' @ 10 # str_of ''mssql-server-test'' @ 10 # str_of ''redis-cache'' @ [10]"

lemmas string_defs = str_of_def splitlines_def strip_def isspace_def is_linebreak_def
lemmas test_defs = test_monitor_def init_def completed_def three_names_def

section \<open>Properties\<close>

subsection \<open>Lines\<close>

text \<open>
  Every line \<^verbatim>\<open>splitlines\<close> returns stands in the string between two line boundaries (or
  ends of the string): it is never a piece of a longer line.
\<close>

lemma splitlines_from_delimited:
  "l \<in> set (splitlines_from cur s) \<Longrightarrow>
     (\<exists>mid post. l = cur @ mid \<and> s = mid @ post \<and> line_end post)
   \<or> (\<exists>pre post. s = pre @ l @ post \<and> pre \<noteq> [] \<and> line_start pre \<and> line_end post)"
proof (induction cur s rule: splitlines_from.induct)
  case (1 line)
  then show ?case by (simp add: line_end_def split: if_splits)
next
  case (2 line c)
  show ?case
  proof (cases "is_linebreak c")
    case True
    with 2 have "l = line @ [] \<and> [c] = [] @ [c] \<and> line_end [c]" by (simp add: line_end_def)
    then show ?thesis by blast
  next
    case False
    with 2 have "l = line @ [c] \<and> [c] = [c] @ [] \<and> line_end []" by (simp add: line_end_def)
    then show ?thesis by blast
  qed
next
  case (3 line c d cs)
  let ?s = "c # d # cs"
  have here: ?case if "l = line" "is_linebreak c"
  proof -
    from that have "l = line @ [] \<and> ?s = [] @ ?s \<and> line_end ?s" by (simp add: line_end_def)
    then show ?thesis by blast
  qed
  have later: ?case
    if ih: "(\<exists>mid post. l = [] @ mid \<and> t = mid @ post \<and> line_end post)
        \<or> (\<exists>pre post. t = pre @ l @ post \<and> pre \<noteq> [] \<and> line_start pre \<and> line_end post)"
      and s: "?s = b @ t" and b: "b \<noteq> []" "is_linebreak (last b)" for b t
  proof -
    from ih consider
      (first) post where "t = l @ post" "line_end post"
      | (further) pre post where "t = pre @ l @ post" "pre \<noteq> []" "line_start pre" "line_end post"
      by auto
    then show ?thesis
    proof cases
      case first
      with s b have "?s = b @ l @ post \<and> b \<noteq> [] \<and> line_start b \<and> line_end post"
        by (simp add: line_start_def)
      then show ?thesis by blast
    next
      case further
      with s b have "?s = (b @ pre) @ l @ post \<and> b @ pre \<noteq> [] \<and> line_start (b @ pre)
        \<and> line_end post" by (simp add: line_start_def)
      then show ?thesis by blast
    qed
  qed
  show ?case
  proof (cases "c = 13 \<and> d = 10")
    case True
    then have lb: "is_linebreak c" "is_linebreak d" by (simp_all add: is_linebreak_def)
    from 3(4) True have "l = line \<or> l \<in> set (splitlines_from [] cs)" by simp
    then show ?thesis
    proof
      assume "l = line" then show ?thesis using lb(1) by (rule here)
    next
      assume "l \<in> set (splitlines_from [] cs)"
      from 3(1) [OF True this] show ?thesis
        by (rule later [of cs "[c, d]"]) (simp_all add: lb)
    qed
  next
    case crlf: False
    show ?thesis
    proof (cases "is_linebreak c")
      case True
      from 3(4) crlf True have "l = line \<or> l \<in> set (splitlines_from [] (d # cs))" by simp
      then show ?thesis
      proof
        assume "l = line" then show ?thesis using True by (rule here)
      next
        assume "l \<in> set (splitlines_from [] (d # cs))"
        from 3(2) [OF crlf True this] show ?thesis
          by (rule later [of "d # cs" "[c]"]) (simp_all add: True)
      qed
    next
      case False
      from 3(4) crlf False have "l \<in> set (splitlines_from (line @ [c]) (d # cs))" by simp
      from 3(3) [OF crlf False this] consider
        (first) mid post where "l = (line @ [c]) @ mid" "d # cs = mid @ post" "line_end post"
        | (further) pre post where "d # cs = pre @ l @ post" "pre \<noteq> []" "line_start pre"
            "line_end post"
        by auto
      then show ?thesis
      proof cases
        case first
        then have "l = line @ (c # mid) \<and> ?s = (c # mid) @ post \<and> line_end post" by simp
        then show ?thesis by blast
      next
        case further
        then have "?s = (c # pre) @ l @ post \<and> c # pre \<noteq> [] \<and> line_start (c # pre)
          \<and> line_end post" by (simp add: line_start_def)
        then show ?thesis by blast
      qed
    qed
  qed
qed

lemma splitlines_delimited:
  assumes "l \<in> set (splitlines s)"
  shows "\<exists>pre post. s = pre @ l @ post \<and> line_start pre \<and> line_end post"
proof -
  from assms have "l \<in> set (splitlines_from [] s)" by (simp add: splitlines_def)
  from splitlines_from_delimited [OF this] consider
    (first) post where "s = l @ post" "line_end post"
    | (further) pre post where "s = pre @ l @ post" "line_start pre" "line_end post"
    by auto
  then show ?thesis
  proof cases
    case first
    then have "s = [] @ l @ post \<and> line_start [] \<and> line_end post" by (simp add: line_start_def)
    then show ?thesis by blast
  next
    case further
    then show ?thesis by blast
  qed
qed

subsection \<open>What each method returns, leaves and causes\<close>

lemma returned_check_status:
  "returned (check_status self r) =
     (case r of
        Inr result \<Rightarrow>
          if container_name self \<in> set (splitlines (strip (stdout result)))
          then Inr RUNNING else Inr STOPPED
      | Inl e \<Rightarrow> if probe_handled e then Inr UNKNOWN else Inl e)"
  by (simp add: returned_def check_status_def Let_def split: sum.splits)

lemma check_status_unfold:
  "check_status self r = (returned (check_status self r), self, [Run podman_ps 10])"
  by (simp add: returned_def check_status_def)

lemma returned_check_status_cong:
  "container_name self' = container_name self \<Longrightarrow>
   returned (check_status self' r) = returned (check_status self r)"
  by (simp add: returned_check_status split: sum.splits)

text \<open>The three ways through \<^verbatim>\<open>poll\<close>.\<close>

lemma poll_raises:
  "returned (check_status self r) = Inl e \<Longrightarrow> poll self r k = (Inl e, self, [Run podman_ps 10])"
  by (subst poll_def, subst check_status_unfold) simp

lemma poll_same:
  "returned (check_status self r) = Inr s \<Longrightarrow> last_status self = Some s \<Longrightarrow>
   poll self r k = (Inr (), self, [Run podman_ps 10])"
  by (subst poll_def, subst check_status_unfold) simp

lemma poll_changed:
  "returned (check_status self r) = Inr s \<Longrightarrow> last_status self \<noteq> Some s \<Longrightarrow>
   poll self r k =
     (case on_status_change self of Some cb \<Rightarrow> k | None \<Rightarrow> Inr (),
      self\<lparr>last_status := Some s\<rparr>,
      Run podman_ps 10 #
        (case on_status_change self of Some cb \<Rightarrow> [Callback cb s (Some s)] | None \<Rightarrow> []))"
  by (subst poll_def, subst check_status_unfold)
     (auto simp: Let_def split: option.splits sum.splits)

lemma callbacks_append: "callbacks (xs @ ys) = callbacks xs @ callbacks ys"
  by (induction xs rule: callbacks.induct) simp_all

subsection \<open>Sequences of polls\<close>

lemma perform_all_Poll_Cons:
  "returned (poll self r k) = Inr () \<Longrightarrow>
   perform_all self (Poll r k # cs) =
     (returned (perform_all (monitor_after (poll self r k)) cs),
      monitor_after (perform_all (monitor_after (poll self r k)) cs),
      events (poll self r k) @ events (perform_all (monitor_after (poll self r k)) cs))"
  by (cases "poll self r k")
     (auto simp: returned_def monitor_after_def events_def split: prod.splits sum.splits)

lemma perform_all_Poll_step:
  assumes "returned (poll self r k) = Inr ()" and "monitor_after (poll self r k) = m"
  shows "returned (perform_all self (Poll r k # cs)) = returned (perform_all m cs)"
    and "monitor_after (perform_all self (Poll r k # cs)) = monitor_after (perform_all m cs)"
    and "callbacks (events (perform_all self (Poll r k # cs))) =
           callbacks (events (poll self r k)) @ callbacks (events (perform_all m cs))"
  using assms perform_all_Poll_Cons [OF assms(1), of cs]
  by (simp_all add: returned_def monitor_after_def events_def callbacks_append
        del: perform_all.simps)

lemma remdups_adj_starts: "\<exists>ys. remdups_adj (c # cs) = c # ys"
  by (induction cs) auto

text \<open>
  Polls whose probes classify as \<open>cs\<close> and whose callback returns each time it is
  called, from any monitor with a callback: the callback receives \<open>cs\<close> with every
  repetition of the status before it left out.
\<close>

lemma polls_general:
  assumes "list_all2 (\<lambda>r c. returned (check_status self0 r) = Inr c) rs cs"
    and "container_name self = container_name self0"
    and "on_status_change self = Some cb"
  shows "returned (perform_all self (map poll_ok rs)) = Inr ()
    \<and> container_name (monitor_after (perform_all self (map poll_ok rs))) = container_name self0
    \<and> on_status_change (monitor_after (perform_all self (map poll_ok rs))) = Some cb
    \<and> last_status (monitor_after (perform_all self (map poll_ok rs))) =
        (if cs = [] then last_status self else Some (last cs))
    \<and> callbacks (events (perform_all self (map poll_ok rs))) =
        map (\<lambda>s. (cb, s, Some s))
          (case last_status self of None \<Rightarrow> remdups_adj cs | Some s \<Rightarrow> tl (remdups_adj (s # cs)))"
  using assms
proof (induction rs cs arbitrary: self rule: list_all2_induct)
  case Nil
  then show ?case
    by (simp add: returned_def monitor_after_def events_def split: option.splits)
next
  case (Cons r rs c cs)
  from Cons.hyps(1) returned_check_status_cong [OF Cons.prems(1), of r]
  have c: "returned (check_status self r) = Inr c"
    by simp
  have mp: "map poll_ok (r # rs) = Poll r (Inr ()) # map poll_ok rs"
    by (simp add: poll_ok_def)
  show ?case
  proof (cases "last_status self = Some c")
    case True
    from poll_same [OF c True, of "Inr ()"]
    have p: "returned (poll self r (Inr ())) = Inr ()" "monitor_after (poll self r (Inr ())) = self"
      "callbacks (events (poll self r (Inr ()))) = []"
      by (simp_all add: returned_def monitor_after_def events_def)
    note step = perform_all_Poll_step [OF p(1) p(2), of "map poll_ok rs"]
    note ih = Cons.IH [OF Cons.prems]
    have "tl (remdups_adj (c # c # cs)) = tl (remdups_adj (c # cs))" by simp
    with ih True show ?thesis
      unfolding mp step p(3) by simp
  next
    case False
    let ?self = "self\<lparr>last_status := Some c\<rparr>"
    from poll_changed [OF c False, of "Inr ()"] Cons.prems(2)
    have p: "returned (poll self r (Inr ())) = Inr ()"
      "monitor_after (poll self r (Inr ())) = ?self"
      "callbacks (events (poll self r (Inr ()))) = [(cb, c, Some c)]"
      by (simp_all add: returned_def monitor_after_def events_def)
    note step = perform_all_Poll_step [OF p(1) p(2), of "map poll_ok rs"]
    have "container_name ?self = container_name self0" "on_status_change ?self = Some cb"
      using Cons.prems by simp_all
    note ih = Cons.IH [OF this]
    obtain ys where ys: "remdups_adj (c # cs) = c # ys"
      using remdups_adj_starts [of c cs] by (elim exE)
    from ih False ys show ?thesis
      unfolding mp step p(3) by (cases "last_status self") simp_all
  qed
qed

subsection \<open>What never changes\<close>

lemma last_status_kept:
  "last_status self \<noteq> None \<Longrightarrow> last_status (monitor_after (perform self c)) \<noteq> None"
proof (cases c)
  case (Poll r k)
  assume n: "last_status self \<noteq> None"
  show ?thesis
  proof (cases "returned (check_status self r)")
    case (Inl e)
    from poll_raises [OF this, of k] n Poll show ?thesis by (simp add: monitor_after_def)
  next
    case (Inr s)
    show ?thesis
      using n Poll poll_same [OF Inr, of k] poll_changed [OF Inr, of k]
      by (cases "last_status self = Some s") (simp_all add: monitor_after_def)
  qed
qed (simp_all add: start_def stop_def restart_def monitor_after_def)

lemma last_status_kept_all:
  "last_status self \<noteq> None \<Longrightarrow> last_status (monitor_after (perform_all self cs)) \<noteq> None"
proof (induction cs arbitrary: self)
  case Nil
  then show ?case by (simp add: monitor_after_def)
next
  case (Cons c cs)
  obtain res m evs where p: "perform self c = (res, m, evs)" by (cases "perform self c")
  with last_status_kept [OF Cons.prems, of c] have m: "last_status m \<noteq> None"
    by (simp add: monitor_after_def)
  obtain res' m' evs' where q: "perform_all m cs = (res', m', evs')"
    by (cases "perform_all m cs")
  from Cons.IH [OF m] m p q show ?case
    by (cases res) (simp_all add: monitor_after_def)
qed

lemma action_leaves_monitor:
  "is_action c \<Longrightarrow>
   monitor_after (perform self c) = self \<and> callbacks (events (perform self c)) = []"
  by (cases c) (simp_all add: start_def stop_def restart_def events_def monitor_after_def)

lemma actions_leave_monitor:
  "list_all is_action cs \<Longrightarrow>
   monitor_after (perform_all self cs) = self \<and> callbacks (events (perform_all self cs)) = []"
proof (induction cs)
  case Nil
  then show ?case by (simp add: monitor_after_def events_def)
next
  case (Cons c cs)
  then have a: "monitor_after (perform self c) = self" "callbacks (events (perform self c)) = []"
    and ih: "monitor_after (perform_all self cs) = self"
      "callbacks (events (perform_all self cs)) = []"
    by (simp_all add: action_leaves_monitor)
  obtain res m evs where p: "perform self c = (res, m, evs)"
    by (cases "perform self c")
  obtain res' m' evs' where q: "perform_all self cs = (res', m', evs')"
    by (cases "perform_all self cs")
  from a p have "m = self" "callbacks evs = []"
    by (simp_all add: monitor_after_def events_def)
  moreover from ih q have "m' = self" "callbacks evs' = []"
    by (simp_all add: monitor_after_def events_def)
  ultimately show ?case using p q
    by (cases res) (simp_all add: monitor_after_def events_def callbacks_append)
qed

section \<open>The claims\<close>

subsection \<open>Classification of a probe\<close>

text \<open>
  Claim C1, for the lines the code compares with.  \<^verbatim>\<open>check_status\<close> returns \<open>RUNNING\<close>
  exactly when the command completes and the configured name equals one of the lines of
  its output, the output being stripped of leading and trailing whitespace as a whole
  before it is cut into lines; \<open>STOPPED\<close> exactly when the command completes and the name
  is none of these lines, which includes the empty output; \<open>UNKNOWN\<close> exactly when the
  command raises a timeout, a missing or unexecutable binary, or another fault of the
  \<^verbatim>\<open>OSError\<close> family.  In each of these cases exactly one status is returned.
\<close>

theorem check_status_classification:
  "(returned (check_status self r) = Inr RUNNING \<longleftrightarrow>
      (\<exists>result. r = Inr result \<and> container_name self \<in> set (splitlines (strip (stdout result)))))
   \<and> (returned (check_status self r) = Inr STOPPED \<longleftrightarrow>
      (\<exists>result. r = Inr result \<and> container_name self \<notin> set (splitlines (strip (stdout result)))))
   \<and> (returned (check_status self r) = Inr UNKNOWN \<longleftrightarrow>
      (\<exists>e. r = Inl e \<and> e \<in> {TimeoutExpired, FileNotFoundError, PermissionError, OSError}))
   \<and> ((\<exists>result. r = Inr result) \<or>
        (\<exists>e. r = Inl e \<and> e \<in> {TimeoutExpired, FileNotFoundError, PermissionError, OSError})
      \<longrightarrow> (\<exists>!s. returned (check_status self r) = Inr s))
   \<and> (stdout result = [] \<longrightarrow> returned (check_status self (Inr result)) = Inr STOPPED)"
proof (cases r)
  case (Inl e)
  then show ?thesis
    by (cases e) (simp_all add: returned_check_status probe_handled_def splitlines_def strip_def)
next
  case (Inr result')
  then show ?thesis
    by (simp add: returned_check_status splitlines_def strip_def)
qed

text \<open>
  The classifications of the test suite: the name among three names, another name only,
  the empty output, a timeout and a missing binary.
\<close>

theorem check_status_classification_witness:
  "returned (check_status test_monitor (Inr (completed 0 three_names))) = Inr RUNNING
   \<and> returned (check_status test_monitor (Inr (completed 0 (str_of ''other-container'' @ [10])))) = Inr STOPPED
   \<and> stdout (completed 0 []) = [] \<and> returned (check_status test_monitor (Inr (completed 0 []))) = Inr STOPPED
   \<and> returned (check_status test_monitor (Inl TimeoutExpired)) = Inr UNKNOWN
   \<and> returned (check_status test_monitor (Inl FileNotFoundError)) = Inr UNKNOWN
   \<and> (\<exists>!s. returned (check_status test_monitor (Inr (completed 0 three_names))) = Inr s)"
proof -
  have n: "container_name test_monitor \<in> set (splitlines (strip (stdout (completed 0 three_names))))"
    by (simp add: string_defs test_defs)
  have o: "container_name test_monitor
      \<notin> set (splitlines (strip (stdout (completed 0 (str_of ''other-container'' @ [10])))))"
    by (simp add: string_defs test_defs)
  have e: "stdout (completed 0 []) = []"
    by (simp add: completed_def)
  from n check_status_classification [of test_monitor "Inr (completed 0 three_names)"]
  have 1: "returned (check_status test_monitor (Inr (completed 0 three_names))) = Inr RUNNING"
    and 6: "\<exists>!s. returned (check_status test_monitor (Inr (completed 0 three_names))) = Inr s"
    by blast+
  from o check_status_classification
    [of test_monitor "Inr (completed 0 (str_of ''other-container'' @ [10]))"]
  have 2: "returned (check_status test_monitor
      (Inr (completed 0 (str_of ''other-container'' @ [10])))) = Inr STOPPED"
    by blast
  from e check_status_classification [of test_monitor _ "completed 0 []"]
  have 3: "returned (check_status test_monitor (Inr (completed 0 []))) = Inr STOPPED"
    by blast
  from check_status_classification [of test_monitor "Inl TimeoutExpired"]
  have 4: "returned (check_status test_monitor (Inl TimeoutExpired)) = Inr UNKNOWN"
    by blast
  from check_status_classification [of test_monitor "Inl FileNotFoundError"]
  have 5: "returned (check_status test_monitor (Inl FileNotFoundError)) = Inr UNKNOWN"
    by blast
  from 1 2 3 4 5 6 e show ?thesis by blast
qed

text \<open>
  The lines of the output itself are not what is compared: the output
  \<^verbatim>\<open>" mssql-server-test\n"\<close> has one line, which starts with a space and is not the
  name, and the status is \<open>RUNNING\<close>.
\<close>

theorem check_status_leading_space_counterexample:
  "container_name test_monitor \<notin> set (splitlines (32 # str_of ''mssql-server-test'' @ [10]))
   \<and> returned (check_status test_monitor
        (Inr (completed 0 (32 # str_of ''mssql-server-test'' @ [10])))) = Inr RUNNING"
  by (simp add: returned_check_status string_defs test_defs)

text \<open>
  Claim C5, for the lines the code compares with.  When the configured name is none of
  the lines of the stripped output, the status is \<open>STOPPED\<close>, whatever longer lines the
  name is a part of; and a status \<open>RUNNING\<close> means that the name stands in the stripped
  output between two line boundaries or ends of the text.
\<close>

theorem check_status_exact_line:
  "(container_name self \<notin> set (splitlines (strip (stdout result))) \<longrightarrow>
      returned (check_status self (Inr result)) = Inr STOPPED)
   \<and> (returned (check_status self (Inr result)) = Inr RUNNING \<longrightarrow>
        (\<exists>pre post. strip (stdout result) = pre @ container_name self @ post
           \<and> line_start pre \<and> line_end post))"
proof (intro conjI impI)
  assume "container_name self \<notin> set (splitlines (strip (stdout result)))"
  then show "returned (check_status self (Inr result)) = Inr STOPPED"
    by (simp add: returned_check_status)
next
  assume "returned (check_status self (Inr result)) = Inr RUNNING"
  then have "container_name self \<in> set (splitlines (strip (stdout result)))"
    by (simp add: returned_check_status split: if_splits)
  then show "\<exists>pre post. strip (stdout result) = pre @ container_name self @ post
           \<and> line_start pre \<and> line_end post"
    by (rule splitlines_delimited)
qed

text \<open>The output \<^verbatim>\<open>"mssql-server-test-2\n"\<close> for the monitor of \<^verbatim>\<open>mssql-server-test\<close>.\<close>

theorem check_status_exact_line_witness:
  "str_of ''mssql-server-test-2'' \<in> set (splitlines (strip (stdout (completed 0 (str_of ''mssql-server-test-2'' @ [10])))))
   \<and> container_name test_monitor
       \<notin> set (splitlines (strip (stdout (completed 0 (str_of ''mssql-server-test-2'' @ [10])))))
   \<and> returned (check_status test_monitor
        (Inr (completed 0 (str_of ''mssql-server-test-2'' @ [10])))) = Inr STOPPED"
proof -
  have a: "str_of ''mssql-server-test-2'' \<in> set (splitlines (strip (stdout (completed 0 (str_of ''mssql-server-test-2'' @ [10])))))"
    by (simp add: string_defs test_defs)
  have h: "container_name test_monitor
       \<notin> set (splitlines (strip (stdout (completed 0 (str_of ''mssql-server-test-2'' @ [10])))))"
    by (simp add: string_defs test_defs)
  from h check_status_exact_line [of test_monitor "completed 0 (str_of ''mssql-server-test-2'' @ [10])"]
  have "returned (check_status test_monitor
        (Inr (completed 0 (str_of ''mssql-server-test-2'' @ [10])))) = Inr STOPPED"
    by blast
  with a h show ?thesis by blast
qed

text \<open>
  With a space after the last line the lines of the output are \<^verbatim>\<open>mssql-server-test-2\<close>
  and \<^verbatim>\<open>mssql-server-test\<close> followed by a space: the name is only a part of each, and
  the status is \<open>RUNNING\<close>.
\<close>

theorem check_status_trailing_space_counterexample:
  "str_of ''mssql-server-test-2''
     \<in> set (splitlines (str_of ''mssql-server-test-2'' @ 10 # str_of ''mssql-server-test'' @ [32]))
   \<and> container_name test_monitor
     \<notin> set (splitlines (str_of ''mssql-server-test-2'' @ 10 # str_of ''mssql-server-test'' @ [32]))
   \<and> returned (check_status test_monitor
        (Inr (completed 0 (str_of ''mssql-server-test-2'' @ 10 # str_of ''mssql-server-test'' @ [32]))))
       = Inr RUNNING"
  by (simp add: returned_check_status string_defs test_defs)

subsection \<open>The edge detector\<close>

text \<open>
  Claim C3.  A poll whose probe classifies as \<open>current\<close>, whatever its callback answers:
  when \<^verbatim>\<open>_last_status\<close> already holds \<open>current\<close>, the monitor is left as it was and no
  callback is invoked.  Otherwise, which includes the monitor that has no status yet,
  \<^verbatim>\<open>_last_status\<close> becomes \<open>current\<close>, nothing else changes, and a registered callback is
  invoked exactly once, within the poll, with \<open>current\<close>, at a moment where
  \<^verbatim>\<open>_last_status\<close> already holds \<open>current\<close>.  So the field changes if and only if the
  new classification differs from what it held.  The poll returns normally unless it
  has invoked the callback, and then it returns or raises what the callback does.
\<close>

theorem poll_updates_iff_changed:
  "returned (check_status self r) = Inr current \<longrightarrow>
     (last_status self = Some current \<longrightarrow>
          monitor_after (poll self r k) = self \<and> callbacks (events (poll self r k)) = []
          \<and> returned (poll self r k) = Inr ())
     \<and> (last_status self \<noteq> Some current \<longrightarrow>
          monitor_after (poll self r k) = self\<lparr>last_status := Some current\<rparr>
          \<and> (\<forall>cb. on_status_change self = Some cb \<longrightarrow>
                callbacks (events (poll self r k)) = [(cb, current, Some current)]
                \<and> returned (poll self r k) = k)
          \<and> (on_status_change self = None \<longrightarrow>
                callbacks (events (poll self r k)) = [] \<and> returned (poll self r k) = Inr ()))
     \<and> (last_status (monitor_after (poll self r k)) \<noteq> last_status self \<longleftrightarrow>
          last_status self \<noteq> Some current)
     \<and> last_status (monitor_after (poll self r k)) = Some current"
proof (intro impI)
  assume c: "returned (check_status self r) = Inr current"
  show "(last_status self = Some current \<longrightarrow>
          monitor_after (poll self r k) = self \<and> callbacks (events (poll self r k)) = []
          \<and> returned (poll self r k) = Inr ())
     \<and> (last_status self \<noteq> Some current \<longrightarrow>
          monitor_after (poll self r k) = self\<lparr>last_status := Some current\<rparr>
          \<and> (\<forall>cb. on_status_change self = Some cb \<longrightarrow>
                callbacks (events (poll self r k)) = [(cb, current, Some current)]
                \<and> returned (poll self r k) = k)
          \<and> (on_status_change self = None \<longrightarrow>
                callbacks (events (poll self r k)) = [] \<and> returned (poll self r k) = Inr ()))
     \<and> (last_status (monitor_after (poll self r k)) \<noteq> last_status self \<longleftrightarrow>
          last_status self \<noteq> Some current)
     \<and> last_status (monitor_after (poll self r k)) = Some current"
  proof (cases "last_status self = Some current")
    case True
    with c have "poll self r k = (Inr (), self, [Run podman_ps 10])"
      by (rule poll_same)
    with True show ?thesis
      by (simp add: returned_def monitor_after_def events_def)
  next
    case False
    with c have "poll self r k =
     (case on_status_change self of Some cb \<Rightarrow> k | None \<Rightarrow> Inr (),
      self\<lparr>last_status := Some current\<rparr>,
      Run podman_ps 10 #
        (case on_status_change self of Some cb \<Rightarrow> [Callback cb current (Some current)] | None \<Rightarrow> []))"
      by (rule poll_changed)
    with False show ?thesis
      by (auto simp: returned_def monitor_after_def events_def)
  qed
qed

text \<open>
  The two scenarios of the test suite: the status before is \<open>STOPPED\<close> or \<open>RUNNING\<close>, and
  the probe lists the container among three.  In the first the callback raises: it has
  been invoked once, the status is stored, and the poll raises.
\<close>

theorem poll_updates_iff_changed_witness:
  "returned (check_status (test_monitor\<lparr>last_status := Some STOPPED\<rparr>)
      (Inr (completed 0 three_names))) = Inr RUNNING
   \<and> last_status (test_monitor\<lparr>last_status := Some STOPPED\<rparr>) \<noteq> Some RUNNING
   \<and> on_status_change (test_monitor\<lparr>last_status := Some STOPPED\<rparr>) = Some ()
   \<and> monitor_after (poll (test_monitor\<lparr>last_status := Some STOPPED\<rparr>)
        (Inr (completed 0 three_names)) (Inl OtherException)) =
       test_monitor\<lparr>last_status := Some RUNNING\<rparr>
   \<and> callbacks (events (poll (test_monitor\<lparr>last_status := Some STOPPED\<rparr>)
        (Inr (completed 0 three_names)) (Inl OtherException))) = [((), RUNNING, Some RUNNING)]
   \<and> returned (poll (test_monitor\<lparr>last_status := Some STOPPED\<rparr>)
        (Inr (completed 0 three_names)) (Inl OtherException)) = Inl OtherException
   \<and> returned (check_status (test_monitor\<lparr>last_status := Some RUNNING\<rparr>)
      (Inr (completed 0 three_names))) = Inr RUNNING
   \<and> last_status (test_monitor\<lparr>last_status := Some RUNNING\<rparr>) = Some RUNNING
   \<and> monitor_after (poll (test_monitor\<lparr>last_status := Some RUNNING\<rparr>)
        (Inr (completed 0 three_names)) (Inr ())) = test_monitor\<lparr>last_status := Some RUNNING\<rparr>
   \<and> callbacks (events (poll (test_monitor\<lparr>last_status := Some RUNNING\<rparr>)
        (Inr (completed 0 three_names)) (Inr ()))) = []"
proof -
  let ?stopped = "test_monitor\<lparr>last_status := Some STOPPED\<rparr>"
  let ?running = "test_monitor\<lparr>last_status := Some RUNNING\<rparr>"
  let ?r = "Inr (completed 0 three_names) :: run_result"
  let ?k = "Inl OtherException :: callback_result"
  have c: "returned (check_status ?stopped ?r) = Inr RUNNING"
    "returned (check_status ?running ?r) = Inr RUNNING"
    by (simp_all add: returned_check_status string_defs test_defs)
  have s: "last_status ?stopped \<noteq> Some RUNNING" "on_status_change ?stopped = Some ()"
    "last_status ?running = Some RUNNING" "?stopped\<lparr>last_status := Some RUNNING\<rparr> = ?running"
    by (simp_all add: test_defs)
  from c(1) s(1,2) poll_updates_iff_changed [of ?stopped ?r RUNNING ?k]
  have 1: "monitor_after (poll ?stopped ?r ?k) = ?stopped\<lparr>last_status := Some RUNNING\<rparr>"
    "callbacks (events (poll ?stopped ?r ?k)) = [((), RUNNING, Some RUNNING)]"
    "returned (poll ?stopped ?r ?k) = ?k"
    by blast+
  from c(2) s(3) poll_updates_iff_changed [of ?running ?r RUNNING "Inr ()"]
  have 2: "monitor_after (poll ?running ?r (Inr ())) = ?running"
    "callbacks (events (poll ?running ?r (Inr ()))) = []"
    by blast+
  from c s 1 2 show ?thesis by simp
qed

text \<open>
  Claim C2.  A monitor with a registered callback and no status yet polls a sequence of
  probe outcomes that classify as \<open>cs\<close>.  While the callback returns each time it is
  invoked, every poll returns normally and the callback invocations, in order, are the
  statuses of \<open>cs\<close> with each maximal run of equal statuses collapsed to one.  The poll
  number \<open>i\<close>, reached that way, invokes the callback once, with the status \<open>cs ! i\<close>,
  when it is the first poll or its status differs from the status of the poll before,
  and does not invoke it otherwise, whether that invocation returns or raises.
\<close>

theorem callback_once_per_run:
  "on_status_change self = Some cb \<and> last_status self = None
   \<and> list_all2 (\<lambda>r c. returned (check_status self r) = Inr c) rs cs \<longrightarrow>
     returned (perform_all self (map poll_ok rs)) = Inr ()
     \<and> callbacks (events (perform_all self (map poll_ok rs))) =
         map (\<lambda>s. (cb, s, Some s)) (remdups_adj cs)
     \<and> (\<forall>i < length rs. \<forall>k.
          callbacks (events
            (poll (monitor_after (perform_all self (map poll_ok (take i rs)))) (rs ! i) k)) =
            (if i = 0 \<or> cs ! i \<noteq> cs ! (i - 1) then [(cb, cs ! i, Some (cs ! i))] else []))"
proof (intro impI, elim conjE)
  assume cb: "on_status_change self = Some cb" and fresh: "last_status self = None"
    and cls: "list_all2 (\<lambda>r c. returned (check_status self r) = Inr c) rs cs"
  have len: "length rs = length cs"
    using cls by (rule list_all2_lengthD)
  have pos: "callbacks (events
            (poll (monitor_after (perform_all self (map poll_ok (take i rs)))) (rs ! i) k)) =
            (if i = 0 \<or> cs ! i \<noteq> cs ! (i - 1) then [(cb, cs ! i, Some (cs ! i))] else [])"
    if i: "i < length rs" for i k
  proof -
    let ?m = "monitor_after (perform_all self (map poll_ok (take i rs)))"
    have "list_all2 (\<lambda>r c. returned (check_status self r) = Inr c) (take i rs) (take i cs)"
      using cls by (rule list_all2_takeI)
    from polls_general [OF this refl cb]
    have m: "container_name ?m = container_name self" "on_status_change ?m = Some cb"
      "last_status ?m = (if take i cs = [] then last_status self else Some (last (take i cs)))"
      by simp_all
    have c: "returned (check_status ?m (rs ! i)) = Inr (cs ! i)"
      using list_all2_nthD [OF cls i] returned_check_status_cong [OF m(1), of "rs ! i"] by simp
    have l: "last_status ?m = (if i = 0 then None else Some (cs ! (i - 1)))"
    proof (cases i)
      case 0
      with m(3) fresh show ?thesis by simp
    next
      case (Suc j)
      with i len have "take i cs \<noteq> []" "last (take i cs) = cs ! j"
        by (simp_all add: take_Suc_conv_app_nth)
      with m(3) Suc show ?thesis by simp
    qed
    show ?thesis
    proof (cases "last_status ?m = Some (cs ! i)")
      case True
      with l poll_same [OF c True, of k] show ?thesis
        by (auto simp: events_def split: if_splits)
    next
      case False
      with l m(2) poll_changed [OF c False, of k] show ?thesis
        by (auto simp: events_def split: if_splits)
    qed
  qed
  from polls_general [OF cls refl cb] fresh pos
  show "returned (perform_all self (map poll_ok rs)) = Inr ()
     \<and> callbacks (events (perform_all self (map poll_ok rs))) =
         map (\<lambda>s. (cb, s, Some s)) (remdups_adj cs)
     \<and> (\<forall>i < length rs. \<forall>k.
          callbacks (events
            (poll (monitor_after (perform_all self (map poll_ok (take i rs)))) (rs ! i) k)) =
            (if i = 0 \<or> cs ! i \<noteq> cs ! (i - 1) then [(cb, cs ! i, Some (cs ! i))] else []))"
    by simp
qed

text \<open>Five polls: a timeout, a missing binary, the container listed twice, nothing listed.\<close>

theorem callback_once_per_run_witness:
  "on_status_change test_monitor = Some () \<and> last_status test_monitor = None
   \<and> list_all2 (\<lambda>r c. returned (check_status test_monitor r) = Inr c)
        [Inl TimeoutExpired, Inl FileNotFoundError, Inr (completed 0 three_names),
         Inr (completed 0 three_names), Inr (completed 0 [])]
        [UNKNOWN, UNKNOWN, RUNNING, RUNNING, STOPPED]
   \<and> callbacks (events (perform_all test_monitor (map poll_ok
        [Inl TimeoutExpired, Inl FileNotFoundError, Inr (completed 0 three_names),
         Inr (completed 0 three_names), Inr (completed 0 [])]))) =
       [((), UNKNOWN, Some UNKNOWN), ((), RUNNING, Some RUNNING), ((), STOPPED, Some STOPPED)]"
proof -
  let ?rs = "[Inl TimeoutExpired, Inl FileNotFoundError, Inr (completed 0 three_names),
         Inr (completed 0 three_names), Inr (completed 0 [])]"
  let ?cs = "[UNKNOWN, UNKNOWN, RUNNING, RUNNING, STOPPED]"
  have h: "on_status_change test_monitor = Some () \<and> last_status test_monitor = None
    \<and> list_all2 (\<lambda>r c. returned (check_status test_monitor r) = Inr c) ?rs ?cs"
    by (simp add: returned_check_status probe_handled_def string_defs test_defs)
  from h callback_once_per_run [of test_monitor "()" ?rs ?cs]
  have "callbacks (events (perform_all test_monitor (map poll_ok ?rs))) =
         map (\<lambda>s. ((), s, Some s)) (remdups_adj ?cs)"
    by blast
  then have "callbacks (events (perform_all test_monitor (map poll_ok ?rs))) =
       [((), UNKNOWN, Some UNKNOWN), ((), RUNNING, Some RUNNING), ((), STOPPED, Some STOPPED)]"
    by simp
  with h show ?thesis by blast
qed

text \<open>
  Claim C4.  The first poll of a monitor that was just constructed and given a callback
  invokes the callback exactly once, with the status the probe classifies as, whichever
  it is, and stores that status, whether the callback returns or raises.  A monitor
  that holds a status holds one after every sequence of polls and actions, whatever the
  probes, the launches and the callback answer.
\<close>

theorem first_poll_fires:
  "(returned (check_status ((init name path)\<lparr>on_status_change := Some cb\<rparr>) r) = Inr s \<longrightarrow>
      callbacks (events (poll ((init name path)\<lparr>on_status_change := Some cb\<rparr>) r k)) =
        [(cb, s, Some s)]
      \<and> last_status (monitor_after (poll ((init name path)\<lparr>on_status_change := Some cb\<rparr>) r k)) =
          Some s)
   \<and> (last_status self \<noteq> None \<longrightarrow> last_status (monitor_after (perform_all self cs)) \<noteq> None)"
proof -
  let ?m = "(init name path)\<lparr>on_status_change := Some cb\<rparr>"
  have "callbacks (events (poll ?m r k)) = [(cb, s, Some s)]
      \<and> last_status (monitor_after (poll ?m r k)) = Some s"
    if c: "returned (check_status ?m r) = Inr s"
  proof -
    have "last_status ?m \<noteq> Some s" by (simp add: init_def)
    from poll_changed [OF c this, of k] show ?thesis
      by (simp add: events_def monitor_after_def)
  qed
  then show ?thesis
    using last_status_kept_all [of self cs] by blast
qed

text \<open>
  The first poll of the monitor of the test suite sees nothing listed; a monitor that
  holds \<open>STOPPED\<close> goes through a start, a poll that changes the status and a poll whose
  probe raises.
\<close>

theorem first_poll_fires_witness:
  "returned (check_status
      ((init (str_of ''mssql-server-test'') (str_of ''/fake/mssql.sh''))\<lparr>on_status_change := Some ()\<rparr>)
      (Inr (completed 0 []))) = Inr STOPPED
   \<and> callbacks (events (poll
      ((init (str_of ''mssql-server-test'') (str_of ''/fake/mssql.sh''))\<lparr>on_status_change := Some ()\<rparr>)
      (Inr (completed 0 [])) (Inr ()))) = [((), STOPPED, Some STOPPED)]
   \<and> last_status (test_monitor\<lparr>last_status := Some STOPPED\<rparr>) \<noteq> None
   \<and> last_status (monitor_after (perform_all (test_monitor\<lparr>last_status := Some STOPPED\<rparr>)
        [Start (Inr \<lparr>pid = 1, exit_code = None\<rparr>), Poll (Inr (completed 0 three_names)) (Inr ()),
         Poll (Inl OtherException) (Inr ())])) \<noteq> None"
proof -
  let ?m = "(init (str_of ''mssql-server-test'') (str_of ''/fake/mssql.sh''))
      \<lparr>on_status_change := Some ()\<rparr> :: unit monitor"
  let ?later = "test_monitor\<lparr>last_status := Some STOPPED\<rparr>"
  let ?cs = "[Start (Inr \<lparr>pid = 1, exit_code = None\<rparr>), Poll (Inr (completed 0 three_names)) (Inr ()),
         Poll (Inl OtherException) (Inr ())]"
  have c: "returned (check_status ?m (Inr (completed 0 []))) = Inr STOPPED"
    by (simp add: returned_check_status string_defs test_defs)
  have l: "last_status ?later \<noteq> None"
    by simp
  from c l first_poll_fires [where name = "str_of ''mssql-server-test''"
      and path = "str_of ''/fake/mssql.sh''" and cb = "()" and r = "Inr (completed 0 [])"
      and s = STOPPED and k = "Inr ()" and self = ?later and cs = ?cs]
  show ?thesis by blast
qed

subsection \<open>Faults of the probe\<close>

text \<open>
  Claim C6, with what the callback does.  When the query times out, the binary is
  missing or cannot be executed, or another fault of the \<^verbatim>\<open>OSError\<close> family occurs,
  \<^verbatim>\<open>check_status\<close> returns \<open>UNKNOWN\<close> and raises nothing, and the poll stores \<open>UNKNOWN\<close>.
  The poll raises nothing of its own: it returns normally when it does not invoke the
  callback, and returns or raises what the callback does when it invokes it.  So with a
  callback that returns, the poll returns normally and a sequence of calls goes on with
  the calls after it.
\<close>

theorem probe_failures_absorbed:
  "e \<in> {TimeoutExpired, FileNotFoundError, PermissionError, OSError} \<longrightarrow>
     returned (check_status self (Inl e)) = Inr UNKNOWN
     \<and> last_status (monitor_after (poll self (Inl e) k)) = Some UNKNOWN
     \<and> returned (poll self (Inl e) k) =
         (if last_status self \<noteq> Some UNKNOWN \<and> on_status_change self \<noteq> None then k else Inr ())
     \<and> returned (poll self (Inl e) (Inr ())) = Inr ()
     \<and> returned (perform_all self (Poll (Inl e) (Inr ()) # cs)) =
         returned (perform_all (monitor_after (poll self (Inl e) (Inr ()))) cs)"
proof (intro impI)
  assume "e \<in> {TimeoutExpired, FileNotFoundError, PermissionError, OSError}"
  then have u: "returned (check_status self (Inl e)) = Inr UNKNOWN"
    by (auto simp: returned_check_status probe_handled_def)
  have r: "returned (poll self (Inl e) k) =
         (if last_status self \<noteq> Some UNKNOWN \<and> on_status_change self \<noteq> None then k else Inr ())"
    and l: "last_status (monitor_after (poll self (Inl e) k)) = Some UNKNOWN" for k
    by (cases "last_status self = Some UNKNOWN";
        auto simp: poll_same [OF u] poll_changed [OF u] returned_def monitor_after_def
          split: option.splits)+
  have p: "returned (poll self (Inl e) (Inr ())) = Inr ()"
    using r [of "Inr ()"] by simp
  from perform_all_Poll_step(1) [OF p refl, of cs] u p r [of k] l [of k]
  show "returned (check_status self (Inl e)) = Inr UNKNOWN
     \<and> last_status (monitor_after (poll self (Inl e) k)) = Some UNKNOWN
     \<and> returned (poll self (Inl e) k) =
         (if last_status self \<noteq> Some UNKNOWN \<and> on_status_change self \<noteq> None then k else Inr ())
     \<and> returned (poll self (Inl e) (Inr ())) = Inr ()
     \<and> returned (perform_all self (Poll (Inl e) (Inr ()) # cs)) =
         returned (perform_all (monitor_after (poll self (Inl e) (Inr ()))) cs)"
    by simp
qed

text \<open>A timeout on the monitor of the test suite, and three polls of which two fail.\<close>

theorem probe_failures_absorbed_witness:
  "TimeoutExpired \<in> {TimeoutExpired, FileNotFoundError, PermissionError, OSError}
   \<and> returned (check_status test_monitor (Inl TimeoutExpired)) = Inr UNKNOWN
   \<and> returned (poll test_monitor (Inl TimeoutExpired) (Inr ())) = Inr ()
   \<and> returned (perform_all test_monitor
        [Poll (Inl TimeoutExpired) (Inr ()), Poll (Inl PermissionError) (Inr ()),
         Poll (Inr (completed 0 [])) (Inr ())]) = Inr ()"
proof -
  have h: "TimeoutExpired \<in> {TimeoutExpired, FileNotFoundError, PermissionError, OSError}"
    by simp
  from h probe_failures_absorbed [of TimeoutExpired test_monitor]
  have 1: "returned (check_status test_monitor (Inl TimeoutExpired)) = Inr UNKNOWN"
    "returned (poll test_monitor (Inl TimeoutExpired) (Inr ())) = Inr ()"
    by blast+
  have 2: "returned (perform_all test_monitor
        [Poll (Inl TimeoutExpired) (Inr ()), Poll (Inl PermissionError) (Inr ()),
         Poll (Inr (completed 0 [])) (Inr ())]) = Inr ()"
    by (simp add: poll_def check_status_def probe_handled_def returned_def string_defs test_defs)
  from h 1 2 show ?thesis by blast
qed

text \<open>
  The poll does not always complete normally after a fault of the probe: after a
  timeout the status \<open>UNKNOWN\<close> is new to the monitor of the test suite, the callback is
  invoked, and when it raises, the poll raises and the sequence of calls ends.
\<close>

theorem poll_raises_after_timeout_counterexample:
  "returned (check_status test_monitor (Inl TimeoutExpired)) = Inr UNKNOWN
   \<and> returned (poll test_monitor (Inl TimeoutExpired) (Inl OtherException)) = Inl OtherException
   \<and> returned (perform_all test_monitor
        [Poll (Inl TimeoutExpired) (Inl OtherException), Poll (Inr (completed 0 [])) (Inr ())]) =
       Inl OtherException"
  by (simp add: poll_def check_status_def probe_handled_def returned_def test_defs)

text \<open>
  Claim C8.  Two completed queries with the same standard output are classified alike,
  whatever their exit codes: \<^verbatim>\<open>check_status\<close> returns the same status, leaves the same
  monitor and causes the same events.
\<close>

theorem status_independent_of_returncode:
  "stdout a = stdout b \<longrightarrow>
     returned (check_status self (Inr a)) = returned (check_status self (Inr b))
     \<and> check_status self (Inr a) = check_status self (Inr b)"
  by (simp add: returned_check_status) (simp add: check_status_def)

text \<open>
  The exit codes 0 and 125 with the output \<^verbatim>\<open>"other-container\n"\<close>: both are \<open>STOPPED\<close>.
\<close>

theorem status_independent_of_returncode_witness:
  "stdout (completed 0 (str_of ''other-container'' @ [10])) =
     stdout (completed 125 (str_of ''other-container'' @ [10]))
   \<and> returncode (completed 0 (str_of ''other-container'' @ [10])) \<noteq>
     returncode (completed 125 (str_of ''other-container'' @ [10]))
   \<and> returned (check_status test_monitor (Inr (completed 0 (str_of ''other-container'' @ [10])))) =
     returned (check_status test_monitor (Inr (completed 125 (str_of ''other-container'' @ [10]))))
   \<and> returned (check_status test_monitor (Inr (completed 125 (str_of ''other-container'' @ [10])))) =
     Inr STOPPED"
proof -
  let ?a = "completed 0 (str_of ''other-container'' @ [10])"
  let ?b = "completed 125 (str_of ''other-container'' @ [10])"
  have h: "stdout ?a = stdout ?b" "returncode ?a \<noteq> returncode ?b"
    by (simp_all add: completed_def)
  have s: "returned (check_status test_monitor (Inr ?a)) = Inr STOPPED"
    by (simp add: returned_check_status string_defs test_defs)
  from h(1) status_independent_of_returncode [of ?a ?b test_monitor]
  have "returned (check_status test_monitor (Inr ?a)) = returned (check_status test_monitor (Inr ?b))"
    by blast
  with h s show ?thesis by simp
qed

subsection \<open>The actions\<close>

text \<open>
  Claim C7.  Each action causes exactly one event: one \<^verbatim>\<open>Popen\<close> of the control script
  with the single argument \<^verbatim>\<open>start\<close>, \<^verbatim>\<open>stop\<close> or \<^verbatim>\<open>restart\<close>, standard output and
  standard error sent to \<^verbatim>\<open>DEVNULL\<close>.  No call that waits for a process is made, and
  when the launch succeeds the action returns normally, with the same outcome whatever
  the child is and whatever exit code it ends with.
\<close>

theorem actions_launch_once:
  "events (start self p) = [Popen [mssql_sh_path self, str_of ''start''] DEVNULL DEVNULL]
   \<and> events (stop self p) = [Popen [mssql_sh_path self, str_of ''stop''] DEVNULL DEVNULL]
   \<and> events (restart self p) = [Popen [mssql_sh_path self, str_of ''restart''] DEVNULL DEVNULL]
   \<and> returned (start self (Inr proc)) = Inr ()
   \<and> returned (stop self (Inr proc)) = Inr ()
   \<and> returned (restart self (Inr proc)) = Inr ()
   \<and> start self (Inr proc) = start self (Inr proc')
   \<and> stop self (Inr proc) = stop self (Inr proc')
   \<and> restart self (Inr proc) = restart self (Inr proc')"
  by (simp add: start_def stop_def restart_def events_def returned_def)

text \<open>The three actions on the monitor of the test suite, as its tests expect them.\<close>

theorem actions_launch_once_witness:
  "events (start test_monitor (Inr \<lparr>pid = 4711, exit_code = None\<rparr>)) =
     [Popen [str_of ''/fake/mssql.sh'', str_of ''start''] DEVNULL DEVNULL]
   \<and> events (stop test_monitor (Inr \<lparr>pid = 4711, exit_code = Some 1\<rparr>)) =
     [Popen [str_of ''/fake/mssql.sh'', str_of ''stop''] DEVNULL DEVNULL]
   \<and> events (restart test_monitor (Inr \<lparr>pid = 4711, exit_code = Some 0\<rparr>)) =
     [Popen [str_of ''/fake/mssql.sh'', str_of ''restart''] DEVNULL DEVNULL]
   \<and> returned (start test_monitor (Inr \<lparr>pid = 4711, exit_code = None\<rparr>)) = Inr ()
   \<and> start test_monitor (Inr \<lparr>pid = 4711, exit_code = None\<rparr>) =
       start test_monitor (Inr \<lparr>pid = 4711, exit_code = Some 1\<rparr>)"
proof -
  have "mssql_sh_path test_monitor = str_of ''/fake/mssql.sh''"
    by (simp add: test_defs)
  with actions_launch_once [of test_monitor "Inr \<lparr>pid = 4711, exit_code = None\<rparr>"
      "\<lparr>pid = 4711, exit_code = None\<rparr>" "\<lparr>pid = 4711, exit_code = Some 1\<rparr>"]
    actions_launch_once [of test_monitor "Inr \<lparr>pid = 4711, exit_code = Some 1\<rparr>"]
    actions_launch_once [of test_monitor "Inr \<lparr>pid = 4711, exit_code = Some 0\<rparr>"]
  show ?thesis by simp
qed

text \<open>
  Claim C9.  When the launch raises, the action raises the same exception: it is not
  handled, no callback reports it, and a sequence of calls ends there with it.
\<close>

theorem launch_failure_propagates:
  "returned (start self (Inl e)) = Inl e
   \<and> returned (stop self (Inl e)) = Inl e
   \<and> returned (restart self (Inl e)) = Inl e
   \<and> callbacks (events (start self (Inl e))) = []
   \<and> callbacks (events (stop self (Inl e))) = []
   \<and> callbacks (events (restart self (Inl e))) = []
   \<and> returned (perform_all self (Start (Inl e) # cs)) = Inl e
   \<and> returned (perform_all self (Stop (Inl e) # cs)) = Inl e
   \<and> returned (perform_all self (Restart (Inl e) # cs)) = Inl e"
  by (simp add: start_def stop_def restart_def events_def returned_def)

text \<open>A missing script, a script without permission, another fault of the system.\<close>

theorem launch_failure_propagates_witness:
  "returned (start test_monitor (Inl FileNotFoundError)) = Inl FileNotFoundError
   \<and> returned (stop test_monitor (Inl PermissionError)) = Inl PermissionError
   \<and> returned (restart test_monitor (Inl OSError)) = Inl OSError"
  using launch_failure_propagates [of test_monitor FileNotFoundError]
    launch_failure_propagates [of test_monitor PermissionError]
    launch_failure_propagates [of test_monitor OSError]
  by blast

text \<open>
  Claim C10.  The three actions leave the monitor as it was, in all four fields, and
  invoke no callback, whether the launch succeeds or raises; \<^verbatim>\<open>check_status\<close> leaves the
  monitor as it was as well.  So does every sequence of actions: of the calls the
  application makes, only a poll changes \<^verbatim>\<open>_last_status\<close>.
\<close>

theorem actions_frame:
  "monitor_after (start self p) = self
   \<and> monitor_after (stop self p) = self
   \<and> monitor_after (restart self p) = self
   \<and> callbacks (events (start self p)) = []
   \<and> callbacks (events (stop self p)) = []
   \<and> callbacks (events (restart self p)) = []
   \<and> monitor_after (check_status self r) = self
   \<and> (list_all is_action cs \<longrightarrow>
        monitor_after (perform_all self cs) = self
        \<and> callbacks (events (perform_all self cs)) = [])"
  using actions_leave_monitor [of cs self]
  by (simp add: start_def stop_def restart_def check_status_def events_def monitor_after_def)

text \<open>A monitor that holds \<open>RUNNING\<close> still holds it after a start, a stop and a failed restart.\<close>

theorem actions_frame_witness:
  "list_all is_action [Start (Inr \<lparr>pid = 1, exit_code = None\<rparr>), Stop (Inr \<lparr>pid = 2, exit_code = Some 0\<rparr>),
      Restart (Inl FileNotFoundError)]
   \<and> monitor_after (perform_all (test_monitor\<lparr>last_status := Some RUNNING\<rparr>)
       [Start (Inr \<lparr>pid = 1, exit_code = None\<rparr>), Stop (Inr \<lparr>pid = 2, exit_code = Some 0\<rparr>),
        Restart (Inl FileNotFoundError)]) = test_monitor\<lparr>last_status := Some RUNNING\<rparr>
   \<and> callbacks (events (perform_all (test_monitor\<lparr>last_status := Some RUNNING\<rparr>)
       [Start (Inr \<lparr>pid = 1, exit_code = None\<rparr>), Stop (Inr \<lparr>pid = 2, exit_code = Some 0\<rparr>),
        Restart (Inl FileNotFoundError)])) = []
   \<and> last_status (monitor_after (stop (test_monitor\<lparr>last_status := Some RUNNING\<rparr>)
        (Inr \<lparr>pid = 2, exit_code = Some 0\<rparr>))) = Some RUNNING"
proof -
  let ?m = "test_monitor\<lparr>last_status := Some RUNNING\<rparr>"
  let ?cs = "[Start (Inr \<lparr>pid = 1, exit_code = None\<rparr>), Stop (Inr \<lparr>pid = 2, exit_code = Some 0\<rparr>),
      Restart (Inl FileNotFoundError)]"
  have h: "list_all is_action ?cs" by simp
  from h actions_frame [of ?m _ _ ?cs]
  have 1: "monitor_after (perform_all ?m ?cs) = ?m" "callbacks (events (perform_all ?m ?cs)) = []"
    by blast+
  from actions_frame [of ?m "Inr \<lparr>pid = 2, exit_code = Some 0\<rparr>"]
  have "monitor_after (stop ?m (Inr \<lparr>pid = 2, exit_code = Some 0\<rparr>)) = ?m"
    by blast
  then have 2: "last_status (monitor_after (stop ?m (Inr \<lparr>pid = 2, exit_code = Some 0\<rparr>))) = Some RUNNING"
    by simp
  from h 1 2 show ?thesis by blast
qed

end
